theory Spec2Isabelle
  imports Complex_Main
begin

section \<open>Streaming aggregation (examples/streaming-aggregation.ipynb)\<close>

text \<open>
  The notebook builds two kinds of streams over batches of taxi trips (pandas data
  frames): sliding-window image aggregations and cumulative means. Every stream ends in
  a \<^verbatim>\<open>collections.deque(maxlen=history)\<close> that keeps the most recent results.
  Exceptions of the Python code are values of the type \<open>error\<close>.
\<close>

datatype error =
  IndexError | KeyError | ValueError | TypeError | ZeroDivisionError | ReductionError

subsection \<open>Bounded deques\<close>

text \<open>
  \<^verbatim>\<open>deque(maxlen=m)\<close>: \<^verbatim>\<open>append\<close> adds the item on the right and, when the
  length then exceeds \<^verbatim>\<open>maxlen\<close>, drops one item on the left. The notebook always
  passes a non-negative integer for \<^verbatim>\<open>maxlen\<close> (\<^verbatim>\<open>history\<close>, \<^verbatim>\<open>n\<close>).
\<close>

record 'a deque =
  maxlen :: nat
  items :: "'a list"

definition deque_new :: "nat \<Rightarrow> 'a deque" where
  "deque_new m = \<lparr>maxlen = m, items = []\<rparr>"

definition deque_append :: "'a deque \<Rightarrow> 'a \<Rightarrow> 'a deque" where
  "deque_append q x =
     (let ys = items q @ [x]
      in q\<lparr>items := (if maxlen q < length ys then tl ys else ys)\<rparr>)"

text \<open>The sink \<^verbatim>\<open>q.append\<close> applied to every result of a stream, in arrival order.\<close>

definition sink_all :: "'a deque \<Rightarrow> 'a list \<Rightarrow> 'a deque" where
  "sink_all q xs = foldl deque_append q xs"

subsection \<open>Batches\<close>

text \<open>
  A batch is a pandas data frame: its index (the pickup timestamps of its rows) and its
  named numeric columns. \<^verbatim>\<open>pd.DataFrame()\<close>, which \<^verbatim>\<open>get_group\<close> returns for a
  group without rows, has an empty index and no column at all. Numbers are exact
  rationals; floating-point rounding is not modelled. Following the data model of the
  specification, the minimum and the maximum of an empty index are \<open>None\<close>.
\<close>

record 't dataframe =
  index :: "'t list"
  columns :: "(string \<times> rat list) list"

definition DataFrame :: "'t dataframe" where
  "DataFrame = \<lparr>index = [], columns = []\<rparr>"

definition list_min :: "'t::linorder list \<Rightarrow> 't option" where
  "list_min ts = (case ts of [] \<Rightarrow> None | t # ts' \<Rightarrow> Some (fold min ts' t))"

definition list_max :: "'t::linorder list \<Rightarrow> 't option" where
  "list_max ts = (case ts of [] \<Rightarrow> None | t # ts' \<Rightarrow> Some (fold max ts' t))"

definition index_min :: "'t::linorder dataframe \<Rightarrow> 't option" where
  "index_min df = list_min (index df)"

definition index_max :: "'t::linorder dataframe \<Rightarrow> 't option" where
  "index_max df = list_max (index df)"

text \<open>\<^verbatim>\<open>df[column]\<close> raises \<^verbatim>\<open>KeyError\<close> when the frame has no such column.\<close>

definition getitem :: "'t dataframe \<Rightarrow> string \<Rightarrow> error + rat list" where
  "getitem df c = (case map_of (columns df) c of None \<Rightarrow> Inl KeyError | Some vs \<Rightarrow> Inr vs)"

subsection \<open>Sliding-window image aggregation\<close>

text \<open>
  \<^verbatim>\<open>
  def aggregate_df(df):
      return df.index.min(), df.index.max(), canvas.points(df, x, y, agg)
  \<close>
  The rasterisation \<^verbatim>\<open>canvas.points\<close> is a parameter \<open>points\<close>; \<open>None\<close> stands for
  its raising an exception, which \<^verbatim>\<open>aggregate_df\<close> lets through.
\<close>

type_synonym ('t, 'p) partial = "'t option \<times> 't option \<times> 'p"

definition aggregate_df ::
  "('t::linorder dataframe \<Rightarrow> 'p option) \<Rightarrow> 't dataframe \<Rightarrow> error + ('t, 'p) partial" where
  "aggregate_df points df =
     (let lo = index_min df; hi = index_max df
      in case points df of None \<Rightarrow> Inl ReductionError | Some p \<Rightarrow> Inr (lo, hi, p))"

text \<open>
  \<^verbatim>\<open>
  def aggregate_images(iterable):
      name = "{:.10} - {:.10}".format(str(iterable[0][0]), str(iterable[-1][1]))
      total = sum([item[2] for item in iterable])
      return tf.set_background(tf.shade(total, cmap, name=name), color=bgcolor)
  \<close>
  \<open>name_range\<close> is the pair \<^verbatim>\<open>(iterable[0][0], iterable[-1][1])\<close> that the name is
  formatted from; indexing an empty tuple raises \<^verbatim>\<open>IndexError\<close>. The conversion
  \<^verbatim>\<open>str\<close> of a timestamp and the shading of the summed raster are parameters.
\<close>

definition name_range :: "('t, 'p) partial list \<Rightarrow> error + ('t option \<times> 't option)" where
  "name_range iterable =
     (case iterable of
        [] \<Rightarrow> Inl IndexError
      | first # rest \<Rightarrow> Inr (fst first, fst (snd (last iterable))))"

definition format_name :: "string \<Rightarrow> string \<Rightarrow> string" where
  "format_name a b = take 10 a @ '' - '' @ take 10 b"

record 'i image =
  name :: string
  pixels :: 'i

definition aggregate_images ::
  "('t option \<Rightarrow> string) \<Rightarrow> ('p::monoid_add \<Rightarrow> 'i) \<Rightarrow> ('t, 'p) partial list
     \<Rightarrow> error + 'i image" where
  "aggregate_images str shade iterable =
     (case name_range iterable of
        Inl e \<Rightarrow> Inl e
      | Inr (lo, hi) \<Rightarrow>
          (let nm = format_name (str lo) (str hi);
               total = foldl (+) 0 (map (\<lambda>item. snd (snd item)) iterable)
           in Inr \<lparr>name = nm, pixels = shade total\<rparr>))"

text \<open>
  \<^verbatim>\<open>
  class SlidingWindowImageAggregate(Stream):
      def __init__(self, source, canvas, x, y, agg, n=7, cmap=None, bgcolor='black'):
          ...
          self.cache = deque(maxlen=n)
      def update(self, x, who=None):
          self.cache.append(self.agg1(x))
          return self.emit(self.agg2(tuple(self.cache)))
  \<close>
  An update returns the new state and either the emitted image or the exception that
  left \<^verbatim>\<open>update\<close>; when \<^verbatim>\<open>agg1\<close> raises, the cache is untouched.
\<close>

record ('t, 'p) sliding_window =
  cache :: "('t, 'p) partial deque"

definition sw_init :: "nat \<Rightarrow> ('t, 'p) sliding_window" where
  "sw_init n = \<lparr>cache = deque_new n\<rparr>"

definition sw_update ::
  "('t option \<Rightarrow> string) \<Rightarrow> ('p::monoid_add \<Rightarrow> 'i) \<Rightarrow> ('t::linorder dataframe \<Rightarrow> 'p option)
     \<Rightarrow> ('t, 'p) sliding_window \<Rightarrow> 't dataframe
     \<Rightarrow> ('t, 'p) sliding_window \<times> (error + 'i image)" where
  "sw_update str shade points st x =
     (case aggregate_df points x of
        Inl e \<Rightarrow> (st, Inl e)
      | Inr p \<Rightarrow>
          (let st' = st\<lparr>cache := deque_append (cache st) p\<rparr>
           in (st', aggregate_images str shade (items (cache st')))))"

text \<open>
  Feeding a sequence of batches: \<open>sw_states\<close> lists the state after each update,
  \<open>sw_run\<close> what each update emitted or raised.
\<close>

fun sw_states ::
  "('t option \<Rightarrow> string) \<Rightarrow> ('p::monoid_add \<Rightarrow> 'i) \<Rightarrow> ('t::linorder dataframe \<Rightarrow> 'p option)
     \<Rightarrow> ('t, 'p) sliding_window \<Rightarrow> 't dataframe list \<Rightarrow> ('t, 'p) sliding_window list" where
  "sw_states str shade points st [] = []"
| "sw_states str shade points st (x # xs) =
     (let st' = fst (sw_update str shade points st x)
      in st' # sw_states str shade points st' xs)"

fun sw_run ::
  "('t option \<Rightarrow> string) \<Rightarrow> ('p::monoid_add \<Rightarrow> 'i) \<Rightarrow> ('t::linorder dataframe \<Rightarrow> 'p option)
     \<Rightarrow> ('t, 'p) sliding_window \<Rightarrow> 't dataframe list \<Rightarrow> (error + 'i image) list" where
  "sw_run str shade points st [] = []"
| "sw_run str shade points st (x # xs) =
     (let r = sw_update str shade points st x
      in snd r # sw_run str shade points (fst r) xs)"

text \<open>
  The range that the specification gives to a combined window: the least of the
  minimum timestamps and the greatest of the maximum timestamps of its elements,
  absent entries ignored.
\<close>

definition spec_range_start :: "('t::linorder, 'p) partial list \<Rightarrow> 't option" where
  "spec_range_start w = list_min (List.map_filter (\<lambda>item. fst item) w)"

definition spec_range_end :: "('t::linorder, 'p) partial list \<Rightarrow> 't option" where
  "spec_range_end w = list_max (List.map_filter (\<lambda>item. fst (snd item)) w)"

subsection \<open>Cumulative mean as a stream class\<close>

text \<open>
  \<^verbatim>\<open>
  class CumulativeMean(Stream):
      def __init__(self, source, column):
          self.column = column
          self.count = 0
          self.total = 0
          self.oldest = None
      def update(self, x, who=None):
          if not self.oldest:
              self.oldest = x.index.min()
          self.count, self.total = self.count + 1, self.total + x[self.column].sum()
          return self.emit((self.oldest, x.index.max(), self.total / self.count))
  \<close>
  \<^verbatim>\<open>None\<close> is falsy and a timestamp is truthy. The right-hand side of the double
  assignment is evaluated before either field is written, so a \<^verbatim>\<open>KeyError\<close> leaves
  the counters alone but keeps the assignment to \<^verbatim>\<open>oldest\<close> made before it.
\<close>

record 't cumulative_mean =
  column :: string
  count :: int
  total_sum :: rat
  oldest :: "'t option"

definition cm_init :: "string \<Rightarrow> 't cumulative_mean" where
  "cm_init c = \<lparr>column = c, count = 0, total_sum = 0, oldest = None\<rparr>"

definition truthy :: "'t option \<Rightarrow> bool" where
  "truthy v = (case v of None \<Rightarrow> False | Some t \<Rightarrow> True)"

definition column_sum :: "'t dataframe \<Rightarrow> string \<Rightarrow> error + rat" where
  "column_sum df c = (case getitem df c of Inl e \<Rightarrow> Inl e | Inr vs \<Rightarrow> Inr (sum_list vs))"

definition truediv :: "rat \<Rightarrow> int \<Rightarrow> error + rat" where
  "truediv a b = (if b = 0 then Inl ZeroDivisionError else Inr (a / of_int b))"

definition cm_update ::
  "'t::linorder cumulative_mean \<Rightarrow> 't dataframe
     \<Rightarrow> 't cumulative_mean \<times> (error + ('t option \<times> 't option \<times> rat))" where
  "cm_update self x =
     (let s1 = (if \<not> truthy (oldest self) then self\<lparr>oldest := index_min x\<rparr> else self)
      in case column_sum x (column s1) of
           Inl e \<Rightarrow> (s1, Inl e)
         | Inr v \<Rightarrow>
             (let s2 = s1\<lparr>count := count s1 + 1, total_sum := total_sum s1 + v\<rparr>
              in case truediv (total_sum s2) (count s2) of
                   Inl e \<Rightarrow> (s2, Inl e)
                 | Inr m \<Rightarrow> (s2, Inr (oldest s2, index_max x, m))))"

text \<open>
  The state after a sequence of updates, and what each update of the sequence emitted
  or raised.
\<close>

definition cm_final ::
  "'t::linorder cumulative_mean \<Rightarrow> 't dataframe list \<Rightarrow> 't cumulative_mean" where
  "cm_final s xs = foldl (\<lambda>s x. fst (cm_update s x)) s xs"

fun cm_run ::
  "'t::linorder cumulative_mean \<Rightarrow> 't dataframe list
     \<Rightarrow> (error + ('t option \<times> 't option \<times> rat)) list" where
  "cm_run s [] = []"
| "cm_run s (x # xs) = (let r = cm_update s x in snd r # cm_run (fst r) xs)"

text \<open>A batch without rows: an empty index, and no value in any column it has.\<close>

definition empty_batch :: "'t dataframe \<Rightarrow> bool" where
  "empty_batch df = (index df = [] \<and> list_all (\<lambda>cv. snd cv = []) (columns df))"

subsection \<open>Cumulative mean as a pipeline of stream primitives\<close>

text \<open>
  \<^verbatim>\<open>
  def cumulative_mean_queue(source, column, history=1):
      def accumulator(acc, df):
          n, total, oldest = acc
          if not oldest:
              oldest = df.index.min()
          return n + 1, total + df[column].sum(), oldest, df.index.max()

      def merge(value):
          n, total, oldest, latest = value
          return oldest, latest, total / n

      q = deque(maxlen=history)
      source.accumulate(accumulator, start=(0, 0, None)).map(merge).sink(q.append)
      return q
  \<close>
  Tuples are lists of Python values; unpacking a tuple into a different number of names
  raises \<^verbatim>\<open>ValueError\<close>. The stream node \<^verbatim>\<open>accumulate\<close> calls the function on its
  state and the new element, stores the result as its state and emits it.
\<close>

datatype 't pyval = PNone | PNum rat | PTs 't

definition py_of_ts :: "'t option \<Rightarrow> 't pyval" where
  "py_of_ts v = (case v of None \<Rightarrow> PNone | Some t \<Rightarrow> PTs t)"

fun py_truthy :: "'t pyval \<Rightarrow> bool" where
  "py_truthy PNone = False"
| "py_truthy (PNum r) = (r \<noteq> 0)"
| "py_truthy (PTs t) = True"

fun py_add :: "'t pyval \<Rightarrow> 't pyval \<Rightarrow> error + 't pyval" where
  "py_add (PNum a) (PNum b) = Inr (PNum (a + b))"
| "py_add a b = Inl TypeError"

fun py_truediv :: "'t pyval \<Rightarrow> 't pyval \<Rightarrow> error + 't pyval" where
  "py_truediv (PNum a) (PNum b) = (if b = 0 then Inl ZeroDivisionError else Inr (PNum (a / b)))"
| "py_truediv a b = Inl TypeError"

definition start :: "'t pyval list" where
  "start = [PNum 0, PNum 0, PNone]"

definition accumulator ::
  "string \<Rightarrow> 't::linorder pyval list \<Rightarrow> 't dataframe \<Rightarrow> error + 't pyval list" where
  "accumulator c acc df =
     (case acc of
        [n, tot, old] \<Rightarrow>
          (let old' = (if \<not> py_truthy old then py_of_ts (index_min df) else old)
           in case py_add n (PNum 1) of
                Inl e \<Rightarrow> Inl e
              | Inr n' \<Rightarrow>
                  (case column_sum df c of
                     Inl e \<Rightarrow> Inl e
                   | Inr v \<Rightarrow>
                       (case py_add tot (PNum v) of
                          Inl e \<Rightarrow> Inl e
                        | Inr tot' \<Rightarrow> Inr [n', tot', old', py_of_ts (index_max df)])))
      | _ \<Rightarrow> Inl ValueError)"

definition merge :: "'t pyval list \<Rightarrow> error + 't pyval list" where
  "merge v =
     (case v of
        [n, tot, old, latest] \<Rightarrow>
          (case py_truediv tot n of Inl e \<Rightarrow> Inl e | Inr m \<Rightarrow> Inr [old, latest, m])
      | _ \<Rightarrow> Inl ValueError)"

record 't mean_queue =
  acc_state :: "'t pyval list"
  queue :: "'t pyval list deque"

definition cumulative_mean_queue :: "nat \<Rightarrow> 't mean_queue" where
  "cumulative_mean_queue history = \<lparr>acc_state = start, queue = deque_new history\<rparr>"

definition cmq_emit ::
  "string \<Rightarrow> 't::linorder mean_queue \<Rightarrow> 't dataframe \<Rightarrow> 't mean_queue \<times> (error + unit)" where
  "cmq_emit c s df =
     (case accumulator c (acc_state s) df of
        Inl e \<Rightarrow> (s, Inl e)
      | Inr result \<Rightarrow>
          (let s1 = s\<lparr>acc_state := result\<rparr>
           in case merge result of
                Inl e \<Rightarrow> (s1, Inl e)
              | Inr v \<Rightarrow> (s1\<lparr>queue := deque_append (queue s1) v\<rparr>, Inr ())))"

fun cmq_run ::
  "string \<Rightarrow> 't::linorder mean_queue \<Rightarrow> 't dataframe list \<Rightarrow> (error + unit) list" where
  "cmq_run c s [] = []"
| "cmq_run c s (df # dfs) = (let r = cmq_emit c s df in snd r # cmq_run c (fst r) dfs)"

subsection \<open>Rasterisation\<close>

text \<open>
  Modelled from the spec: \<^verbatim>\<open>canvas.points\<close>, datashader's rasterisation with its
  reductions, which the notebook calls and which is not among the sources. The reducer
  is configured with a pair of key columns and a reduction operator from the closed set
  min, max, mean, sum, count, applied per key (per spatial bin). It fails (here \<open>None\<close>,
  the specification's \<^verbatim>\<open>ReductionError\<close>) when a configured column is absent from the
  batch. The identity element of the operator is 0 for sum and count and an empty bin
  otherwise.
\<close>

datatype reduction = ds_min string | ds_max string | ds_mean string | ds_sum string | ds_count

record canvas =
  plot_bins :: nat
  bin_of :: "rat \<Rightarrow> rat \<Rightarrow> nat option"

definition reduction_identity :: "reduction \<Rightarrow> rat option" where
  "reduction_identity agg =
     (case agg of
        ds_min c \<Rightarrow> None
      | ds_max c \<Rightarrow> None
      | ds_mean c \<Rightarrow> None
      | ds_sum c \<Rightarrow> Some 0
      | ds_count \<Rightarrow> Some 0)"

definition reduce_bin :: "reduction \<Rightarrow> rat list \<Rightarrow> rat option" where
  "reduce_bin agg vs =
     (case agg of
        ds_min c \<Rightarrow> list_min vs
      | ds_max c \<Rightarrow> list_max vs
      | ds_mean c \<Rightarrow> (if vs = [] then None else Some (sum_list vs / of_nat (length vs)))
      | ds_sum c \<Rightarrow> Some (sum_list vs)
      | ds_count \<Rightarrow> Some (of_nat (length vs)))"

definition reduction_values :: "reduction \<Rightarrow> 't dataframe \<Rightarrow> rat list option" where
  "reduction_values agg df =
     (case agg of
        ds_min c \<Rightarrow> map_of (columns df) c
      | ds_max c \<Rightarrow> map_of (columns df) c
      | ds_mean c \<Rightarrow> map_of (columns df) c
      | ds_sum c \<Rightarrow> map_of (columns df) c
      | ds_count \<Rightarrow> Some (map (\<lambda>t. 1) (index df)))"

definition canvas_points ::
  "canvas \<Rightarrow> string \<Rightarrow> string \<Rightarrow> reduction \<Rightarrow> 't dataframe \<Rightarrow> rat option list option" where
  "canvas_points cvs x y agg df =
     (case map_of (columns df) x of
        None \<Rightarrow> None
      | Some xs \<Rightarrow>
          (case map_of (columns df) y of
             None \<Rightarrow> None
           | Some ys \<Rightarrow>
               (case reduction_values agg df of
                  None \<Rightarrow> None
                | Some vs \<Rightarrow>
                    Some (map (\<lambda>b. reduce_bin agg
                                 (map (\<lambda>r. snd (snd r))
                                    (filter (\<lambda>r. bin_of cvs (fst r) (fst (snd r)) = Some b)
                                       (zip xs (zip ys vs)))))
                            [0..<plot_bins cvs]))))"

section \<open>Properties\<close>

subsection \<open>Bounded deques\<close>

lemma maxlen_deque_append: "maxlen (deque_append q x) = maxlen q"
  by (simp add: deque_append_def Let_def)

lemma maxlen_sink_all: "maxlen (sink_all q xs) = maxlen q"
  unfolding sink_all_def
  by (induction xs arbitrary: q) (simp_all add: maxlen_deque_append)

lemma sink_all_snoc: "sink_all q (xs @ [x]) = deque_append (sink_all q xs) x"
  by (simp add: sink_all_def)

lemma items_sink_all_new:
  "items (sink_all (deque_new H) xs) = drop (length xs - H) xs"
proof (induction xs rule: rev_induct)
  case Nil
  show ?case by (simp add: sink_all_def deque_new_def)
next
  case (snoc x xs)
  let ?q = "sink_all (deque_new H) xs"
  have m: "maxlen ?q = H"
    by (simp add: maxlen_sink_all deque_new_def)
  show ?case
  proof (cases "H < Suc (length xs)")
    case True
    then have len: "length (items ?q) = H"
      by (simp add: snoc.IH)
    have "items (deque_append ?q x) = tl (drop (length xs - H) xs @ [x])"
      using len m by (simp add: deque_append_def Let_def snoc.IH)
    also have "\<dots> = drop (Suc (length xs - H)) (xs @ [x])"
    proof (cases "H = 0")
      case True
      then show ?thesis by simp
    next
      case False
      with \<open>H < Suc (length xs)\<close> have "drop (length xs - H) xs \<noteq> []"
        and "Suc (length xs - H) - length xs = 0"
        by simp_all
      then show ?thesis
        by (simp add: drop_Suc drop_tl)
    qed
    also have "Suc (length xs - H) = length (xs @ [x]) - H"
      using True by simp
    finally show ?thesis
      by (simp only: sink_all_snoc)
  next
    case False
    then have "length (items ?q) < H" and "length xs - H = 0"
      by (simp_all add: snoc.IH)
    then show ?thesis
      using m False by (simp add: sink_all_snoc deque_append_def Let_def snoc.IH)
  qed
qed

text \<open>
  Claim C6. A retention buffer \<^verbatim>\<open>deque(maxlen=H)\<close> with \<open>H \<ge> 1\<close> that has received
  \<open>n > H\<close> items through \<^verbatim>\<open>q.append\<close> holds exactly \<open>H\<close> items: the last \<open>H\<close> items
  pushed, oldest first.
\<close>

theorem retention_buffer_last_H:
  assumes "1 \<le> H" and "H < length xs"
  shows "length (items (sink_all (deque_new H) xs)) = H
       \<and> items (sink_all (deque_new H) xs) = drop (length xs - H) xs"
  using assms by (simp add: items_sink_all_new)

theorem retention_buffer_last_H_witness:
  "(1::nat) \<le> 2 \<and> 2 < length [''A'', ''B'', ''C'']
   \<and> items (sink_all (deque_new 2) [''A'', ''B'', ''C'']) = [''B'', ''C'']"
  using retention_buffer_last_H [of 2 "[''A'', ''B'', ''C'']"] by simp

subsection \<open>Combining a window\<close>

lemma list_min_Min: "ts \<noteq> [] \<Longrightarrow> list_min ts = Some (Min (set ts))"
  by (cases ts) (simp_all only: list_min_def list.case Min.set_eq_fold, simp)

lemma list_max_Max: "ts \<noteq> [] \<Longrightarrow> list_max ts = Some (Max (set ts))"
  by (cases ts) (simp_all only: list_max_def list.case Max.set_eq_fold, simp)

lemma list_min_least:
  assumes "a \<in> set ts" and "\<forall>t\<in>set ts. a \<le> t"
  shows "list_min ts = Some a"
proof -
  from assms(1) have ne: "ts \<noteq> []" by auto
  have "Min (set ts) = a"
    using assms by (intro Min_eqI) auto
  with ne show ?thesis by (simp add: list_min_Min)
qed

lemma list_max_greatest:
  assumes "b \<in> set ts" and "\<forall>t\<in>set ts. t \<le> b"
  shows "list_max ts = Some b"
proof -
  from assms(1) have ne: "ts \<noteq> []" by auto
  have "Max (set ts) = b"
    using assms by (intro Max_eqI) auto
  with ne show ?thesis by (simp add: list_max_Max)
qed

lemma set_map_filter: "set (List.map_filter f xs) = {y. \<exists>x\<in>set xs. f x = Some y}"
  by (induction xs) (auto split: option.splits)

lemma name_range_nonempty:
  "w \<noteq> [] \<Longrightarrow> name_range w = Inr (fst (hd w), fst (snd (last w)))"
  by (cases w) (simp_all add: name_range_def)

lemma aggregate_images_nonempty:
  "w \<noteq> [] \<Longrightarrow> aggregate_images str shade w =
     Inr \<lparr>name = format_name (str (fst (hd w))) (str (fst (snd (last w)))),
          pixels = shade (foldl (+) 0 (map (\<lambda>item. snd (snd item)) w))\<rparr>"
  by (simp add: aggregate_images_def name_range_nonempty)

text \<open>
  Claim C1, as amended. For every non-empty window, \<^verbatim>\<open>aggregate_images\<close> formats the
  name from the minimum timestamp of the first element and the maximum timestamp of
  the last element of the window. These are the least minimum and the greatest maximum
  over the window when the first element holds the earliest minimum and the last
  element the latest maximum, as in a window in time order; they are not for every
  order of the elements.
\<close>

theorem aggregate_images_name_range:
  assumes "w \<noteq> []"
  shows "(\<exists>img. aggregate_images str shade w = Inr img
            \<and> name img = format_name (str (fst (hd w))) (str (fst (snd (last w)))))
       \<and> name_range w = Inr (fst (hd w), fst (snd (last w)))
       \<and> (\<forall>a b. fst (hd w) = Some a \<and> fst (snd (last w)) = Some b
              \<and> (\<forall>e\<in>set w. \<forall>t. fst e = Some t \<longrightarrow> a \<le> t)
              \<and> (\<forall>e\<in>set w. \<forall>t. fst (snd e) = Some t \<longrightarrow> t \<le> b)
            \<longrightarrow> name_range w = Inr (spec_range_start w, spec_range_end w))"
proof (intro conjI allI impI)
  show "\<exists>img. aggregate_images str shade w = Inr img
            \<and> name img = format_name (str (fst (hd w))) (str (fst (snd (last w))))"
    using assms by (simp add: aggregate_images_nonempty)
  show nr: "name_range w = Inr (fst (hd w), fst (snd (last w)))"
    using assms by (rule name_range_nonempty)
  fix a b
  assume h: "fst (hd w) = Some a \<and> fst (snd (last w)) = Some b
              \<and> (\<forall>e\<in>set w. \<forall>t. fst e = Some t \<longrightarrow> a \<le> t)
              \<and> (\<forall>e\<in>set w. \<forall>t. fst (snd e) = Some t \<longrightarrow> t \<le> b)"
  have "hd w \<in> set w" and "last w \<in> set w"
    using assms by simp_all
  with h have "a \<in> set (List.map_filter (\<lambda>item. fst item) w)"
    and "b \<in> set (List.map_filter (\<lambda>item. fst (snd item)) w)"
    by (auto simp: set_map_filter)
  moreover from h have "\<forall>t\<in>set (List.map_filter (\<lambda>item. fst item) w). a \<le> t"
    and "\<forall>t\<in>set (List.map_filter (\<lambda>item. fst (snd item)) w). t \<le> b"
    by (auto simp: set_map_filter)
  ultimately have "spec_range_start w = Some a" and "spec_range_end w = Some b"
    unfolding spec_range_start_def spec_range_end_def
    by (simp_all add: list_min_least list_max_greatest)
  with h nr show "name_range w = Inr (spec_range_start w, spec_range_end w)"
    by simp
qed

theorem aggregate_images_name_range_witness:
  "[(Some (1::nat), Some (2::nat), 0::int), (Some 3, Some 4, 0)] \<noteq> []
   \<and> name_range [(Some (1::nat), Some (2::nat), 0::int), (Some 3, Some 4, 0)]
       = Inr (Some 1, Some 4)
   \<and> spec_range_start [(Some (1::nat), Some (2::nat), 0::int), (Some 3, Some 4, 0)] = Some 1
   \<and> spec_range_end [(Some (1::nat), Some (2::nat), 0::int), (Some 3, Some 4, 0)] = Some 4
   \<and> (\<exists>img. aggregate_images (\<lambda>t. if t = Some 1 then ''2015-01-01 00:00:00'' else ''2015-01-04 23:59:59'')
               (\<lambda>p. p) [(Some (1::nat), Some (2::nat), 0::int), (Some 3, Some 4, 0)] = Inr img
            \<and> name img = ''2015-01-01 - 2015-01-04'')"
proof -
  have ne: "[(Some (1::nat), Some (2::nat), 0::int), (Some 3, Some 4, 0)] \<noteq> []"
    by simp
  from aggregate_images_name_range [OF ne,
      of "\<lambda>t. if t = Some 1 then ''2015-01-01 00:00:00'' else ''2015-01-04 23:59:59''" "\<lambda>p. p"]
  show ?thesis
    by (simp add: format_name_def spec_range_start_def spec_range_end_def
        list_min_def list_max_def)
qed

theorem aggregate_images_order_counterexample:
  "name_range [(Some (5::nat), Some (6::nat), 0::int), (Some 1, Some 2, 0)]
     = Inr (Some 5, Some 2)
   \<and> spec_range_start [(Some (5::nat), Some (6::nat), 0::int), (Some 1, Some 2, 0)] = Some 1
   \<and> spec_range_end [(Some (5::nat), Some (6::nat), 0::int), (Some 1, Some 2, 0)] = Some 6
   \<and> name_range [(Some (5::nat), Some (6::nat), 0::int), (Some 1, Some 2, 0)]
     \<noteq> Inr (spec_range_start [(Some (5::nat), Some (6::nat), 0::int), (Some 1, Some 2, 0)],
            spec_range_end [(Some (5::nat), Some (6::nat), 0::int), (Some 1, Some 2, 0)])"
  by (simp add: name_range_def spec_range_start_def spec_range_end_def
      list_min_def list_max_def)

subsection \<open>The sliding window\<close>

lemma length_items_deque_append:
  "length (items q) \<le> maxlen q \<Longrightarrow>
     length (items (deque_append q x)) = min (Suc (length (items q))) (maxlen q)"
  by (simp add: deque_append_def Let_def)

lemma length_items_deque_append_le:
  "length (items q) \<le> maxlen q \<Longrightarrow> length (items (deque_append q x)) \<le> maxlen q"
  by (simp add: length_items_deque_append)

lemma items_deque_append_nonempty:
  "1 \<le> maxlen q \<Longrightarrow> items (deque_append q x) \<noteq> []"
  by (cases "items q") (simp_all add: deque_append_def Let_def)

lemma sw_update_Some:
  "points x = Some p \<Longrightarrow>
     sw_update str shade points st x =
       (st\<lparr>cache := deque_append (cache st) (index_min x, index_max x, p)\<rparr>,
        aggregate_images str shade
          (items (deque_append (cache st) (index_min x, index_max x, p))))"
  by (simp add: sw_update_def aggregate_df_def Let_def)

lemma sw_update_None:
  "points x = None \<Longrightarrow> sw_update str shade points st x = (st, Inl ReductionError)"
  by (simp add: sw_update_def aggregate_df_def Let_def)

lemma sw_update_snd:
  "snd (sw_update str shade points st x) =
     (if points x = None then Inl ReductionError
      else aggregate_images str shade (items (cache (fst (sw_update str shade points st x)))))"
  by (cases "points x") (simp_all add: sw_update_Some sw_update_None)

lemma sw_update_maxlen:
  "maxlen (cache (fst (sw_update str shade points st x))) = maxlen (cache st)"
  by (cases "points x") (simp_all add: sw_update_Some sw_update_None maxlen_deque_append)

lemma sw_update_length_le:
  "length (items (cache st)) \<le> maxlen (cache st) \<Longrightarrow>
     length (items (cache (fst (sw_update str shade points st x)))) \<le> maxlen (cache st)"
  by (cases "points x")
     (simp_all add: sw_update_Some sw_update_None length_items_deque_append_le)

lemma sw_update_length:
  "points x \<noteq> None \<Longrightarrow> length (items (cache st)) \<le> maxlen (cache st) \<Longrightarrow>
     length (items (cache (fst (sw_update str shade points st x)))) =
       min (Suc (length (items (cache st)))) (maxlen (cache st))"
  by (cases "points x") (simp_all add: sw_update_Some length_items_deque_append)

lemma length_sw_run: "length (sw_run str shade points st xs) = length xs"
  by (induction xs arbitrary: st) (simp_all add: Let_def)

lemma length_sw_states: "length (sw_states str shade points st xs) = length xs"
  by (induction xs arbitrary: st) (simp_all add: Let_def)

lemma sw_states_bounded:
  "length (items (cache st)) \<le> maxlen (cache st) \<Longrightarrow>
     s \<in> set (sw_states str shade points st xs) \<Longrightarrow>
     length (items (cache s)) \<le> maxlen (cache st)"
proof (induction xs arbitrary: st)
  case Nil
  then show ?case by simp
next
  case (Cons x xs)
  let ?st' = "fst (sw_update str shade points st x)"
  have le: "length (items (cache ?st')) \<le> maxlen (cache ?st')"
    using Cons.prems(1) by (simp add: sw_update_length_le sw_update_maxlen)
  from Cons.prems(2) consider "s = ?st'" | "s \<in> set (sw_states str shade points ?st' xs)"
    by (auto simp: Let_def)
  then show ?case
  proof cases
    case 1
    with le show ?thesis by (simp add: sw_update_maxlen)
  next
    case 2
    from Cons.IH [OF le 2] show ?thesis by (simp add: sw_update_maxlen)
  qed
qed

lemma sw_run_nth:
  assumes "\<forall>x\<in>set xs. points x \<noteq> None"
    and "length (items (cache st)) \<le> maxlen (cache st)"
    and "i < length xs"
  shows "sw_run str shade points st xs ! i =
           aggregate_images str shade (items (cache (sw_states str shade points st xs ! i)))
       \<and> length (items (cache (sw_states str shade points st xs ! i))) =
           min (length (items (cache st)) + Suc i) (maxlen (cache st))"
  using assms
proof (induction xs arbitrary: st i)
  case Nil
  then show ?case by simp
next
  case (Cons x xs)
  let ?st' = "fst (sw_update str shade points st x)"
  from Cons.prems(1) have px: "points x \<noteq> None" and rest: "\<forall>y\<in>set xs. points y \<noteq> None"
    by simp_all
  have len: "length (items (cache ?st')) =
      min (Suc (length (items (cache st)))) (maxlen (cache st))"
    using px Cons.prems(2) by (rule sw_update_length)
  have m: "maxlen (cache ?st') = maxlen (cache st)"
    by (rule sw_update_maxlen)
  show ?case
  proof (cases i)
    case 0
    with px len show ?thesis
      by (auto simp: Let_def sw_update_snd)
  next
    case (Suc j)
    with Cons.prems(3) have j: "j < length xs" by simp
    have le: "length (items (cache ?st')) \<le> maxlen (cache ?st')"
      using len m by simp
    from Cons.IH [OF rest le j] len m Suc show ?thesis
      by (simp add: Let_def min_def)
  qed
qed

text \<open>
  Claim C2, as amended. With a window size \<open>W \<ge> 1\<close> and batches that \<^verbatim>\<open>agg1\<close> reduces
  without raising, every one of the \<open>k\<close> updates emits an image and the window combined
  by the \<open>i\<close>-th update (counted from 1) has \<open>min i W\<close> elements. For every sequence
  of batches the cache never holds more than \<open>W\<close> elements. An update on a batch for
  which \<^verbatim>\<open>agg1\<close> raises lets the exception through: it appends nothing and emits
  nothing.
\<close>

theorem sliding_window_emits_when_reduced:
  assumes "1 \<le> W"
  shows "((\<forall>x\<in>set xs. points x \<noteq> None) \<longrightarrow>
            length (sw_run str shade points (sw_init W) xs) = length xs
          \<and> (\<forall>i<length xs.
               (\<exists>img. sw_run str shade points (sw_init W) xs ! i = Inr img)
             \<and> sw_run str shade points (sw_init W) xs ! i =
                 aggregate_images str shade
                   (items (cache (sw_states str shade points (sw_init W) xs ! i)))
             \<and> length (items (cache (sw_states str shade points (sw_init W) xs ! i))) =
                 min (Suc i) W))
       \<and> (\<forall>s\<in>set (sw_states str shade points (sw_init W) xs). length (items (cache s)) \<le> W)
       \<and> (\<forall>st x. points x = None \<longrightarrow>
             sw_update str shade points st x = (st, Inl ReductionError))"
proof (intro conjI allI impI ballI)
  assume "\<forall>x\<in>set xs. points x \<noteq> None"
  show "length (sw_run str shade points (sw_init W) xs) = length xs"
    by (rule length_sw_run)
next
  fix i assume ok: "\<forall>x\<in>set xs. points x \<noteq> None" and i: "i < length xs"
  have init: "length (items (cache (sw_init W))) \<le> maxlen (cache (sw_init W))"
    by (simp add: sw_init_def deque_new_def)
  from sw_run_nth [OF ok init i, of str shade]
  have run: "sw_run str shade points (sw_init W) xs ! i =
      aggregate_images str shade (items (cache (sw_states str shade points (sw_init W) xs ! i)))"
    and len: "length (items (cache (sw_states str shade points (sw_init W) xs ! i))) = min (Suc i) W"
    by (simp_all add: sw_init_def deque_new_def)
  show "sw_run str shade points (sw_init W) xs ! i =
      aggregate_images str shade (items (cache (sw_states str shade points (sw_init W) xs ! i)))"
    by (rule run)
  show "length (items (cache (sw_states str shade points (sw_init W) xs ! i))) = min (Suc i) W"
    by (rule len)
  from len assms have "items (cache (sw_states str shade points (sw_init W) xs ! i)) \<noteq> []"
    by (auto simp: min_def split: if_splits)
  then show "\<exists>img. sw_run str shade points (sw_init W) xs ! i = Inr img"
    by (simp add: run aggregate_images_nonempty)
next
  fix s assume "s \<in> set (sw_states str shade points (sw_init W) xs)"
  with sw_states_bounded [of "sw_init W" s str shade points xs]
  show "length (items (cache s)) \<le> W"
    by (simp add: sw_init_def deque_new_def)
next
  fix st :: "('a, 'b) sliding_window" and x
  assume "points x = None"
  then show "sw_update str shade points st x = (st, Inl ReductionError)"
    by (rule sw_update_None)
qed

theorem sliding_window_emits_when_reduced_witness:
  "(1::nat) \<le> 2
   \<and> length (sw_run (\<lambda>t. ''t'') (\<lambda>p. p) (\<lambda>df. Some (int (length (index df)))) (sw_init 2)
        [\<lparr>index = [1::nat], columns = []\<rparr>, \<lparr>index = [2], columns = []\<rparr>,
         \<lparr>index = [3], columns = []\<rparr>]) = 3
   \<and> length (items (cache (sw_states (\<lambda>t. ''t'') (\<lambda>p. p)
        (\<lambda>df. Some (int (length (index df)))) (sw_init 2)
        [\<lparr>index = [1::nat], columns = []\<rparr>, \<lparr>index = [2], columns = []\<rparr>,
         \<lparr>index = [3], columns = []\<rparr>] ! 2))) = 2"
proof -
  have w: "(1::nat) \<le> 2" by simp
  have ok: "\<forall>x\<in>set [\<lparr>index = [1::nat], columns = []\<rparr>, \<lparr>index = [2], columns = []\<rparr>,
                \<lparr>index = [3], columns = []\<rparr>]. (\<lambda>df. Some (int (length (index df)))) x \<noteq> None"
    by simp
  from sliding_window_emits_when_reduced [OF w, of "[\<lparr>index = [1::nat], columns = []\<rparr>, \<lparr>index = [2], columns = []\<rparr>,
         \<lparr>index = [3], columns = []\<rparr>]" "\<lambda>df. Some (int (length (index df)))"
         "\<lambda>t. ''t''" "\<lambda>p. p"] ok
  show ?thesis
    by simp
qed

theorem sliding_window_reducer_counterexample:
  "sw_run (\<lambda>t. ''t'') (\<lambda>p. p)
      (\<lambda>df. case map_of (columns df) ''pickup_x'' of
               None \<Rightarrow> None | Some xs \<Rightarrow> Some (int (length xs))) (sw_init 2)
      [\<lparr>index = [1::nat], columns = [(''pickup_x'', [0])]\<rparr>, DataFrame,
       \<lparr>index = [3], columns = [(''pickup_x'', [0, 5])]\<rparr>]
     = [Inr \<lparr>name = ''t - t'', pixels = 1\<rparr>, Inl ReductionError,
        Inr \<lparr>name = ''t - t'', pixels = 3\<rparr>]
   \<and> map (\<lambda>s. length (items (cache s)))
       (sw_states (\<lambda>t. ''t'') (\<lambda>p. p)
         (\<lambda>df. case map_of (columns df) ''pickup_x'' of
               None \<Rightarrow> None | Some xs \<Rightarrow> Some (int (length xs))) (sw_init 2)
         [\<lparr>index = [1::nat], columns = [(''pickup_x'', [0])]\<rparr>, DataFrame,
          \<lparr>index = [3], columns = [(''pickup_x'', [0, 5])]\<rparr>])
     = [1, 1, 2]"
  by (simp add: sw_update_def aggregate_df_def aggregate_images_def name_range_def
      format_name_def sw_init_def deque_new_def deque_append_def DataFrame_def Let_def)

text \<open>
  Claim C9. \<^verbatim>\<open>aggregate_images\<close> on an empty window raises (Python's
  \<^verbatim>\<open>IndexError\<close>, from \<^verbatim>\<open>iterable[0]\<close>). An update of a sliding window of size at
  least 1 appends before it combines, so the window it combines is never empty and the
  update never raises that error.
\<close>

theorem empty_window_unreachable:
  "aggregate_images str shade ([] :: ('t::linorder, 'p::monoid_add) partial list) = Inl IndexError
   \<and> (1 \<le> maxlen (cache st) \<longrightarrow>
        snd (sw_update str shade points st x) \<noteq> Inl IndexError
      \<and> (\<forall>p. points x = Some p \<longrightarrow>
            items (cache (fst (sw_update str shade points st x))) \<noteq> []
          \<and> snd (sw_update str shade points st x) =
              aggregate_images str shade (items (cache (fst (sw_update str shade points st x))))))"
proof (intro conjI impI allI)
  show "aggregate_images str shade ([] :: ('t, 'p) partial list) = Inl IndexError"
    by (simp add: aggregate_images_def name_range_def)
next
  assume m: "1 \<le> maxlen (cache st)"
  show "snd (sw_update str shade points st x) \<noteq> Inl IndexError"
  proof (cases "points x")
    case None
    then show ?thesis by (simp add: sw_update_None)
  next
    case (Some p)
    with m show ?thesis
      by (simp add: sw_update_Some aggregate_images_nonempty items_deque_append_nonempty)
  qed
  fix p assume p: "points x = Some p"
  with m show "items (cache (fst (sw_update str shade points st x))) \<noteq> []"
    by (simp add: sw_update_Some items_deque_append_nonempty)
  from p show "snd (sw_update str shade points st x) =
      aggregate_images str shade (items (cache (fst (sw_update str shade points st x))))"
    by (simp add: sw_update_Some)
qed

theorem empty_window_unreachable_witness:
  "1 \<le> maxlen (cache (sw_init 1 :: (nat, int) sliding_window))
   \<and> snd (sw_update (\<lambda>t. ''t'') (\<lambda>p. p) (\<lambda>df. Some (int (length (index df))))
            (sw_init 1) \<lparr>index = [1::nat], columns = []\<rparr>) \<noteq> Inl IndexError
   \<and> items (cache (fst (sw_update (\<lambda>t. ''t'') (\<lambda>p. p) (\<lambda>df. Some (int (length (index df))))
            (sw_init 1) \<lparr>index = [1::nat], columns = []\<rparr>))) \<noteq> []"
proof -
  have m: "1 \<le> maxlen (cache (sw_init 1 :: (nat, int) sliding_window))"
    by (simp add: sw_init_def deque_new_def)
  from m empty_window_unreachable [of "\<lambda>t. ''t''" "\<lambda>p. p"
      "sw_init 1 :: (nat, int) sliding_window"
      "\<lambda>df. Some (int (length (index df)))" "\<lparr>index = [1::nat], columns = []\<rparr>"]
  show ?thesis
    by blast
qed

subsection \<open>The cumulative mean\<close>

lemma cm_update_column: "column (fst (cm_update s x)) = column s"
  by (simp add: cm_update_def Let_def truediv_def split: sum.splits)

lemma cm_update_oldest:
  "oldest (fst (cm_update s x)) = (if truthy (oldest s) then oldest s else index_min x)"
  by (simp add: cm_update_def Let_def truediv_def split: sum.splits)

lemma cm_update_Inl:
  "column_sum x (column s) = Inl e \<Longrightarrow>
     count (fst (cm_update s x)) = count s
   \<and> total_sum (fst (cm_update s x)) = total_sum s
   \<and> snd (cm_update s x) = Inl e"
  by (simp add: cm_update_def Let_def)

lemma cm_update_Inr:
  "column_sum x (column s) = Inr v \<Longrightarrow>
     count (fst (cm_update s x)) = count s + 1
   \<and> total_sum (fst (cm_update s x)) = total_sum s + v
   \<and> snd (cm_update s x) =
       (if count s + 1 = 0 then Inl ZeroDivisionError
        else Inr (oldest (fst (cm_update s x)), index_max x,
                  (total_sum s + v) / of_int (count s + 1)))"
  by (cases "count s + 1 = 0") (simp_all add: cm_update_def Let_def truediv_def)

lemma column_sum_cases:
  obtains e where "column_sum x c = Inl e" | v where "column_sum x c = Inr v"
  by (cases "column_sum x c") auto

lemma cm_update_count_mono: "count s \<le> count (fst (cm_update s x))"
  by (rule column_sum_cases [of x "column s"]) (simp_all add: cm_update_Inl cm_update_Inr)

lemma cm_final_Nil: "cm_final s [] = s"
  by (simp add: cm_final_def)

lemma cm_final_Cons: "cm_final s (x # xs) = cm_final (fst (cm_update s x)) xs"
  by (simp add: cm_final_def)

lemma cm_final_snoc: "cm_final s (xs @ [x]) = fst (cm_update (cm_final s xs) x)"
  by (simp add: cm_final_def)

lemma cm_final_append: "cm_final s (xs @ ys) = cm_final (cm_final s xs) ys"
  by (simp add: cm_final_def)

lemma cm_final_column: "column (cm_final s xs) = column s"
  by (induction xs rule: rev_induct) (simp_all add: cm_final_Nil cm_final_snoc cm_update_column)

lemma cm_final_count_mono: "count s \<le> count (cm_final s xs)"
proof (induction xs rule: rev_induct)
  case Nil
  show ?case by (simp add: cm_final_Nil)
next
  case (snoc x xs)
  from snoc cm_update_count_mono [of "cm_final s xs" x] show ?case
    by (simp add: cm_final_snoc)
qed

lemma cm_final_init_count: "0 \<le> count (cm_final (cm_init c) xs)"
  using cm_final_count_mono [of "cm_init c" xs] by (simp add: cm_init_def)

lemma cm_final_oldest: "oldest s = Some a \<Longrightarrow> oldest (cm_final s xs) = Some a"
  by (induction xs rule: rev_induct)
     (simp_all add: cm_final_Nil cm_final_snoc cm_update_oldest truthy_def)

lemma length_cm_run: "length (cm_run s xs) = length xs"
  by (induction xs arbitrary: s) (simp_all add: Let_def)

lemma cm_run_nth:
  "i < length xs \<Longrightarrow> cm_run s xs ! i = snd (cm_update (cm_final s (take i xs)) (xs ! i))"
proof (induction xs arbitrary: s i)
  case Nil
  then show ?case by simp
next
  case (Cons x xs)
  show ?case
  proof (cases i)
    case 0
    then show ?thesis by (simp add: Let_def cm_final_Nil)
  next
    case (Suc j)
    with Cons.prems have "j < length xs" by simp
    from Cons.IH [OF this] Suc show ?thesis
      by (simp add: Let_def cm_final_Cons)
  qed
qed

lemma cm_update_emitted_oldest:
  "snd (cm_update s x) = Inr (ob, l, m) \<Longrightarrow> ob = oldest (fst (cm_update s x))"
  by (rule column_sum_cases [of x "column s"])
     (auto simp: cm_update_Inl cm_update_Inr split: if_splits)

text \<open>
  Claim C5. Along any sequence of updates of a \<^verbatim>\<open>CumulativeMean\<close>, once an emitted
  result carries a timestamp as \<^verbatim>\<open>oldest\<close>, every later emitted result carries the
  same timestamp: \<^verbatim>\<open>oldest\<close> never moves forward in time.
\<close>

theorem oldest_never_moves:
  assumes "i < j" and "j < length xs"
    and "cm_run s xs ! i = Inr (Some a, l1, m1)"
    and "cm_run s xs ! j = Inr (ob, l2, m2)"
  shows "ob = Some a \<and> (\<exists>b. ob = Some b \<and> b \<le> a)"
proof -
  let ?si = "cm_final s (take i xs)"
  let ?sj = "cm_final s (take j xs)"
  from assms have i: "i < length xs" by simp
  from assms(3) have "snd (cm_update ?si (xs ! i)) = Inr (Some a, l1, m1)"
    by (simp add: cm_run_nth [OF i])
  then have "oldest (fst (cm_update ?si (xs ! i))) = Some a"
    by (simp add: cm_update_emitted_oldest [symmetric])
  then have after_i: "oldest (cm_final s (take (Suc i) xs)) = Some a"
    using i by (simp add: take_Suc_conv_app_nth cm_final_snoc)
  have "take (Suc i) (take j xs) = take (Suc i) xs"
    using assms(1) by (simp add: min_def)
  with append_take_drop_id [of "Suc i" "take j xs"]
  have "take j xs = take (Suc i) xs @ drop (Suc i) (take j xs)"
    by simp
  then have "?sj = cm_final (cm_final s (take (Suc i) xs)) (drop (Suc i) (take j xs))"
    by (metis cm_final_append)
  with after_i have before_j: "oldest ?sj = Some a"
    by (simp add: cm_final_oldest)
  from assms(4) have "snd (cm_update ?sj (xs ! j)) = Inr (ob, l2, m2)"
    by (simp add: cm_run_nth [OF assms(2)])
  then have "ob = oldest (fst (cm_update ?sj (xs ! j)))"
    by (rule cm_update_emitted_oldest)
  with before_j have "ob = Some a"
    by (simp add: cm_update_oldest truthy_def)
  then show ?thesis by simp
qed

theorem oldest_never_moves_witness:
  "(0::nat) < 1 \<and> (1::nat) < length [\<lparr>index = [3::nat, 4], columns = [(''fare'', [1, 3])]\<rparr>,
                                       \<lparr>index = [1, 2], columns = [(''fare'', [6])]\<rparr>]
   \<and> cm_run (cm_init ''fare'') [\<lparr>index = [3::nat, 4], columns = [(''fare'', [1, 3])]\<rparr>,
                                 \<lparr>index = [1, 2], columns = [(''fare'', [6])]\<rparr>]
     = [Inr (Some 3, Some 4, 4), Inr (Some 3, Some 2, 5)]"
proof -
  let ?xs = "[\<lparr>index = [3::nat, 4], columns = [(''fare'', [1, 3])]\<rparr>,
              \<lparr>index = [1, 2], columns = [(''fare'', [6])]\<rparr>]"
  have run: "cm_run (cm_init ''fare'') ?xs = [Inr (Some 3, Some 4, 4), Inr (Some 3, Some 2, 5)]"
    by (simp add: cm_init_def cm_update_def column_sum_def getitem_def truediv_def truthy_def
        index_min_def index_max_def list_min_def list_max_def Let_def)
  have i: "(0::nat) < 1" and j: "(1::nat) < length ?xs"
    by simp_all
  have e0: "cm_run (cm_init ''fare'') ?xs ! 0 = Inr (Some 3, Some 4, 4)"
    and e1: "cm_run (cm_init ''fare'') ?xs ! 1 = Inr (Some 3, Some 2, 5)"
    unfolding run by simp_all
  from oldest_never_moves [OF i j e0 e1] run i j show ?thesis
    by simp
qed

lemma cm_final_sums:
  assumes "map (\<lambda>x. column_sum x (column s)) xs = map Inr ss"
  shows "count (cm_final s xs) = count s + int (length xs)
       \<and> total_sum (cm_final s xs) = total_sum s + sum_list ss"
  using assms
proof (induction xs arbitrary: ss rule: rev_induct)
  case Nil
  then show ?case by (simp add: cm_final_Nil)
next
  case (snoc x xs)
  from snoc.prems obtain ss' v where ss: "ss = ss' @ [v]"
    and pre: "map (\<lambda>x. column_sum x (column s)) xs = map Inr ss'"
    and v: "column_sum x (column s) = Inr v"
    by (cases ss rule: rev_cases) auto
  from v have "column_sum x (column (cm_final s xs)) = Inr v"
    by (simp add: cm_final_column)
  from cm_update_Inr [OF this] snoc.IH [OF pre] ss show ?case
    by (simp add: cm_final_snoc)
qed

text \<open>
  Claim C7. When the batches have the column sums \<open>s\<^sub>1, \<dots>, s\<^sub>k\<close>, the mean emitted
  by the \<open>i\<close>-th update of a fresh \<^verbatim>\<open>CumulativeMean\<close> is \<open>(s\<^sub>1 + \<dots> + s\<^sub>i) / i\<close>;
  after the \<open>k\<close>-th it is \<open>(s\<^sub>1 + \<dots> + s\<^sub>k) / k\<close>. Arithmetic is exact.
\<close>

theorem cumulative_mean_value:
  assumes "map (\<lambda>x. column_sum x c) xs = map Inr ss" and "i < length xs"
  shows "\<exists>ob l. cm_run (cm_init c) xs ! i =
           Inr (ob, l, sum_list (take (Suc i) ss) / of_nat (Suc i))"
proof -
  let ?s = "cm_final (cm_init c) (take i xs)"
  have c: "column (cm_init c) = c" by (simp add: cm_init_def)
  from assms(1) have len: "length ss = length xs"
    by (metis length_map)
  from assms(1) have "map (\<lambda>x. column_sum x c) (take i xs) = map Inr (take i ss)"
    by (simp add: take_map [symmetric])
  then have "map (\<lambda>x. column_sum x (column (cm_init c))) (take i xs) = map Inr (take i ss)"
    by (simp only: c)
  from cm_final_sums [OF this] assms(2)
  have cnt: "count ?s = int i" and tot: "total_sum ?s = sum_list (take i ss)"
    by (simp_all add: cm_init_def)
  have "column_sum (xs ! i) c = Inr (ss ! i)"
    using assms len by (metis nth_map)
  then have "column_sum (xs ! i) (column ?s) = Inr (ss ! i)"
    by (simp add: cm_final_column c)
  from cm_update_Inr [OF this] cnt tot
  have "snd (cm_update ?s (xs ! i)) =
      Inr (oldest (fst (cm_update ?s (xs ! i))), index_max (xs ! i),
           (sum_list (take i ss) + ss ! i) / of_int (int i + 1))"
    by simp
  moreover have "sum_list (take (Suc i) ss) = sum_list (take i ss) + ss ! i"
    using assms(2) len by (simp add: take_Suc_conv_app_nth)
  moreover have "(of_int (int i + 1) :: rat) = of_nat (Suc i)"
    by simp
  ultimately show ?thesis
    using assms(2) by (simp add: cm_run_nth del: of_nat_Suc)
qed

theorem cumulative_mean_value_witness:
  "map (\<lambda>x. column_sum x ''fare'')
      [\<lparr>index = [1::nat, 2], columns = [(''fare'', [1, 3])]\<rparr>,
       \<lparr>index = [3], columns = [(''fare'', [6])]\<rparr>,
       \<lparr>index = [4, 5], columns = [(''fare'', [4, 6])]\<rparr>] = map Inr [4, 6, 10]
   \<and> (\<exists>ob l. cm_run (cm_init ''fare'')
      [\<lparr>index = [1::nat, 2], columns = [(''fare'', [1, 3])]\<rparr>,
       \<lparr>index = [3], columns = [(''fare'', [6])]\<rparr>,
       \<lparr>index = [4, 5], columns = [(''fare'', [4, 6])]\<rparr>] ! 2 = Inr (ob, l, 20 / 3))
   \<and> map (\<lambda>r. case r of Inl e \<Rightarrow> None | Inr (ob, l, m) \<Rightarrow> Some m)
      (cm_run (cm_init ''fare'')
      [\<lparr>index = [1::nat, 2], columns = [(''fare'', [1, 3])]\<rparr>,
       \<lparr>index = [3], columns = [(''fare'', [6])]\<rparr>,
       \<lparr>index = [4, 5], columns = [(''fare'', [4, 6])]\<rparr>]) = [Some 4, Some 5, Some (20 / 3)]"
proof -
  let ?xs = "[\<lparr>index = [1::nat, 2], columns = [(''fare'', [1, 3])]\<rparr>,
       \<lparr>index = [3], columns = [(''fare'', [6])]\<rparr>,
       \<lparr>index = [4, 5], columns = [(''fare'', [4, 6])]\<rparr>]"
  have sums: "map (\<lambda>x. column_sum x ''fare'') ?xs = map Inr [4, 6, 10]"
    by (simp add: column_sum_def getitem_def)
  have i: "2 < length ?xs" by simp
  have means: "map (\<lambda>r. case r of Inl e \<Rightarrow> None | Inr (ob, l, m) \<Rightarrow> Some m)
      (cm_run (cm_init ''fare'') ?xs) = [Some 4, Some 5, Some (20 / 3)]"
    by (simp add: cm_init_def cm_update_def column_sum_def getitem_def truediv_def truthy_def
        index_min_def index_max_def list_min_def list_max_def Let_def)
  from cumulative_mean_value [OF sums i]
  have "\<exists>ob l. cm_run (cm_init ''fare'') ?xs ! 2 = Inr (ob, l, 20 / 3)"
    by (simp add: numeral_2_eq_2 numeral_3_eq_3)
  with sums means show ?thesis
    by blast
qed

lemma empty_batch_column_sum:
  assumes "empty_batch x" and "map_of (columns x) c = Some vs"
  shows "column_sum x c = Inr 0"
proof -
  from assms(2) have "(c, vs) \<in> set (columns x)"
    by (rule map_of_SomeD)
  with assms(1) have "vs = []"
    by (auto simp: empty_batch_def list_all_iff)
  with assms(2) show ?thesis
    by (simp add: column_sum_def getitem_def)
qed

lemma empty_batch_index_max: "empty_batch x \<Longrightarrow> index_max x = None"
  by (simp add: empty_batch_def index_max_def list_max_def)

text \<open>
  Claim C4, as amended. For every state that a \<^verbatim>\<open>CumulativeMean\<close> reaches and every
  batch without rows that has the configured column, \<^verbatim>\<open>update\<close> does not raise: the
  column sum is 0, \<^verbatim>\<open>count\<close> grows by 1, \<^verbatim>\<open>total\<close> is unchanged, and the emitted
  mean is \<open>total / (count + 1)\<close>, which is the previous mean times
  \<open>count / (count + 1)\<close> when there is a previous mean (\<open>count \<ge> 1\<close>).
\<close>

theorem cm_update_empty_batch:
  assumes "empty_batch x" and "map_of (columns x) c \<noteq> None"
    and "s = cm_final (cm_init c) xs"
  shows "column_sum x c = Inr 0
       \<and> count (fst (cm_update s x)) = count s + 1
       \<and> total_sum (fst (cm_update s x)) = total_sum s
       \<and> snd (cm_update s x) =
           Inr (oldest (fst (cm_update s x)), None, total_sum s / of_int (count s + 1))
       \<and> (1 \<le> count s \<longrightarrow>
            total_sum s / of_int (count s + 1) =
              (total_sum s / of_int (count s)) * (of_int (count s) / of_int (count s + 1)))"
proof -
  from assms(2) obtain vs where "map_of (columns x) c = Some vs"
    by auto
  with assms(1) have zero: "column_sum x c = Inr 0"
    by (rule empty_batch_column_sum)
  have col: "column s = c"
    by (simp add: assms(3) cm_final_column cm_init_def)
  have nonneg: "0 \<le> count s"
    by (simp add: assms(3) cm_final_init_count)
  from zero col have "column_sum x (column s) = Inr 0"
    by simp
  from cm_update_Inr [OF this] nonneg empty_batch_index_max [OF assms(1)]
  have upd: "count (fst (cm_update s x)) = count s + 1"
    "total_sum (fst (cm_update s x)) = total_sum s"
    "snd (cm_update s x) =
       Inr (oldest (fst (cm_update s x)), None, total_sum s / of_int (count s + 1))"
    by simp_all
  have "1 \<le> count s \<longrightarrow>
      total_sum s / of_int (count s + 1) =
        (total_sum s / of_int (count s)) * (of_int (count s) / of_int (count s + 1))"
    by simp
  with zero upd show ?thesis
    by blast
qed

theorem cm_update_empty_batch_counterexample:
  "empty_batch (DataFrame :: nat dataframe)
   \<and> snd (cm_update (cm_init ''passenger_count'') (DataFrame :: nat dataframe)) = Inl KeyError"
  by (simp add: empty_batch_def DataFrame_def cm_update_def cm_init_def column_sum_def
      getitem_def Let_def)

theorem cm_update_empty_batch_witness:
  "empty_batch \<lparr>index = [] :: nat list, columns = [(''fare'', [])]\<rparr>
   \<and> map_of (columns \<lparr>index = [] :: nat list, columns = [(''fare'', [])]\<rparr>) ''fare'' \<noteq> None
   \<and> count (cm_final (cm_init ''fare'') [\<lparr>index = [7::nat], columns = [(''fare'', [1, 3])]\<rparr>]) = 1
   \<and> snd (cm_update (cm_final (cm_init ''fare'') [\<lparr>index = [7::nat], columns = [(''fare'', [1, 3])]\<rparr>])
          \<lparr>index = [], columns = [(''fare'', [])]\<rparr>) = Inr (Some 7, None, 2)"
proof -
  let ?x = "\<lparr>index = [] :: nat list, columns = [(''fare'', [])]\<rparr>"
  let ?s = "cm_final (cm_init ''fare'') [\<lparr>index = [7::nat], columns = [(''fare'', [1, 3])]\<rparr>]"
  have e: "empty_batch ?x" and c: "map_of (columns ?x) ''fare'' \<noteq> None"
    by (simp_all add: empty_batch_def)
  have s: "?s = \<lparr>column = ''fare'', count = 1, total_sum = 4, oldest = Some 7\<rparr>"
    by (simp add: cm_final_def cm_init_def cm_update_def column_sum_def getitem_def truediv_def
        truthy_def index_min_def list_min_def Let_def)
  from cm_update_empty_batch [OF e c refl, of "[\<lparr>index = [7::nat], columns = [(''fare'', [1, 3])]\<rparr>]"]
  have "snd (cm_update ?s ?x) =
      Inr (oldest (fst (cm_update ?s ?x)), None, total_sum ?s / of_int (count ?s + 1))"
    by blast
  then have "snd (cm_update ?s ?x) = Inr (Some 7, None, 2)"
    by (simp add: s cm_update_oldest truthy_def)
  with e c s show ?thesis
    by simp
qed

subsection \<open>The accumulator of the pipeline\<close>

lemma accumulator_not3: "length acc \<noteq> 3 \<Longrightarrow> accumulator c acc df = Inl ValueError"
  by (auto simp: accumulator_def split: list.splits)

lemma accumulator_Inr_length: "accumulator c acc df = Inr r \<Longrightarrow> length r = 4"
  by (auto simp: accumulator_def Let_def split: list.splits sum.splits)

lemma accumulator_start:
  "accumulator c start df =
     (case column_sum df c of
        Inl e \<Rightarrow> Inl e
      | Inr v \<Rightarrow> Inr [PNum 1, PNum v, py_of_ts (index_min df), py_of_ts (index_max df)])"
  by (simp add: accumulator_def start_def split: sum.splits)

lemma cmq_emit_len4:
  "length (acc_state s) = 4 \<Longrightarrow> cmq_emit c s df = (s, Inl ValueError)"
  by (simp add: cmq_emit_def accumulator_not3)

lemma cmq_emit_start:
  "acc_state s = start \<Longrightarrow>
     snd (cmq_emit c s df) = (case column_sum df c of Inl e \<Rightarrow> Inl e | Inr v \<Rightarrow> Inr ())
   \<and> (acc_state (fst (cmq_emit c s df)) = start \<or> length (acc_state (fst (cmq_emit c s df))) = 4)"
  by (simp add: cmq_emit_def accumulator_start merge_def Let_def split: sum.splits)

lemma cmq_emit_Inr_length:
  "snd (cmq_emit c s df) = Inr u \<Longrightarrow> length (acc_state (fst (cmq_emit c s df))) = 4"
  by (auto simp: cmq_emit_def Let_def accumulator_Inr_length split: sum.splits)

lemma cmq_run_len4:
  "length (acc_state s) = 4 \<Longrightarrow> cmq_run c s dfs = replicate (length dfs) (Inl ValueError)"
  by (induction dfs) (simp_all add: cmq_emit_len4)

lemma length_cmq_run: "length (cmq_run c s dfs) = length dfs"
  by (induction dfs arbitrary: s) (simp_all add: Let_def)

lemma cmq_run_after_success:
  "i < j \<Longrightarrow> j < length dfs \<Longrightarrow> cmq_run c s dfs ! i = Inr () \<Longrightarrow>
     cmq_run c s dfs ! j = Inl ValueError"
proof (induction dfs arbitrary: s i j)
  case Nil
  then show ?case by simp
next
  case (Cons df dfs)
  from Cons.prems(1) obtain j' where j: "j = Suc j'"
    by (cases j) auto
  with Cons.prems(2) have j': "j' < length dfs" by simp
  show ?case
  proof (cases i)
    case 0
    with Cons.prems(3) have "snd (cmq_emit c s df) = Inr ()"
      by (simp add: Let_def)
    then have "length (acc_state (fst (cmq_emit c s df))) = 4"
      by (rule cmq_emit_Inr_length)
    then show ?thesis
      using j j' by (simp add: Let_def cmq_run_len4)
  next
    case (Suc i')
    with Cons.prems j have "i' < j'" and "cmq_run c (fst (cmq_emit c s df)) dfs ! i' = Inr ()"
      by (simp_all add: Let_def)
    from Cons.IH [OF this(1) j' this(2)] j show ?thesis
      by (simp add: Let_def)
  qed
qed

lemma cmq_run_successes:
  "length (filter (\<lambda>r. r = Inr ()) (cmq_run c s dfs)) \<le> 1"
proof (induction dfs arbitrary: s)
  case Nil
  show ?case by simp
next
  case (Cons df dfs)
  show ?case
  proof (cases "snd (cmq_emit c s df) = Inr ()")
    case True
    then have "length (acc_state (fst (cmq_emit c s df))) = 4"
      by (rule cmq_emit_Inr_length)
    then have "cmq_run c (fst (cmq_emit c s df)) dfs = replicate (length dfs) (Inl ValueError)"
      by (rule cmq_run_len4)
    with True show ?thesis
      by (simp add: Let_def)
  next
    case False
    with Cons.IH [of "fst (cmq_emit c s df)"] show ?thesis
      by (simp add: Let_def)
  qed
qed

lemma cmq_run_no_zero_division:
  "acc_state s = start \<or> length (acc_state s) = 4 \<Longrightarrow>
     Inl ZeroDivisionError \<notin> set (cmq_run c s dfs)"
proof (induction dfs arbitrary: s)
  case Nil
  show ?case by simp
next
  case (Cons df dfs)
  from Cons.prems show ?case
  proof
    assume st: "acc_state s = start"
    from cmq_emit_start [OF st, of c df]
    have "snd (cmq_emit c s df) \<noteq> Inl ZeroDivisionError"
      and "acc_state (fst (cmq_emit c s df)) = start
         \<or> length (acc_state (fst (cmq_emit c s df))) = 4"
      by (auto simp: column_sum_def getitem_def split: sum.splits option.splits)
    with Cons.IH [of "fst (cmq_emit c s df)"] show ?thesis
      by (simp add: Let_def)
  next
    assume "length (acc_state s) = 4"
    then show ?thesis
      by (simp add: cmq_run_len4 [of s c "df # dfs"] del: cmq_run.simps replicate.simps)
  qed
qed

lemma cmq_run_after_column:
  assumes "acc_state s = start \<or> length (acc_state s) = 4"
    and "i < j" and "j < length dfs" and "column_sum (dfs ! i) c = Inr v"
  shows "cmq_run c s dfs ! j = Inl ValueError"
  using assms
proof (induction dfs arbitrary: s i j)
  case Nil
  then show ?case by simp
next
  case (Cons df dfs)
  from Cons.prems(2) obtain j' where j: "j = Suc j'"
    by (cases j) auto
  with Cons.prems(3) have j': "j' < length dfs" by simp
  let ?s' = "fst (cmq_emit c s df)"
  have inv: "acc_state ?s' = start \<or> length (acc_state ?s') = 4"
    using Cons.prems(1) cmq_emit_start [of s c df] by (auto simp: cmq_emit_len4)
  show ?case
  proof (cases i)
    case 0
    with Cons.prems(4) have col: "column_sum df c = Inr v" by simp
    have "length (acc_state ?s') = 4"
    proof (cases "acc_state s = start")
      case True
      with col cmq_emit_start [of s c df] have "snd (cmq_emit c s df) = Inr ()"
        by simp
      then show ?thesis by (rule cmq_emit_Inr_length)
    next
      case False
      with Cons.prems(1) show ?thesis by (simp add: cmq_emit_len4)
    qed
    then show ?thesis
      using j j' by (simp add: Let_def cmq_run_len4)
  next
    case (Suc i')
    with Cons.prems j have "i' < j'" and "column_sum (dfs ! i') c = Inr v"
      by simp_all
    from Cons.IH [OF inv this(1) j' this(2)] j show ?thesis
      by (simp add: Let_def)
  qed
qed

lemma accumulator_tuple:
  "column_sum df c = Inr v \<Longrightarrow>
     accumulator c [PNum n, PNum t, old] df =
       Inr [PNum (n + 1), PNum (t + v),
            if py_truthy old then old else py_of_ts (index_min df),
            py_of_ts (index_max df)]"
  by (simp add: accumulator_def)

text \<open>
  Claim C3, as amended. The accumulator of \<^verbatim>\<open>cumulative_mean_queue\<close> starts from a
  tuple of 3 elements and, on a batch with the column, returns the tuple of 4 elements
  \<^verbatim>\<open>(n + 1, total + sum, oldest, latest)\<close>; on a state of 4 elements it raises
  \<^verbatim>\<open>ValueError\<close>. So the first update on a batch with the column succeeds, every
  update after a batch with the column (and so every update after a successful one)
  raises, and at most one update of any run succeeds. A batch without the column
  raises \<^verbatim>\<open>KeyError\<close> and leaves the state of 3 elements in place.
\<close>

theorem accumulator_tuple_mismatch:
  "length (start :: 't::linorder pyval list) = 3
   \<and> (\<forall>(df :: 't dataframe) v n t old. column_sum df c = Inr v \<longrightarrow>
         accumulator c [PNum n, PNum t, old] df =
           Inr [PNum (n + 1), PNum (t + v),
                if py_truthy old then old else py_of_ts (index_min df),
                py_of_ts (index_max df)])
   \<and> (\<forall>acc (df :: 't dataframe) r. accumulator c acc df = Inr r \<longrightarrow> length r = 4)
   \<and> (\<forall>acc (df :: 't dataframe). length acc = 4 \<longrightarrow> accumulator c acc df = Inl ValueError)
   \<and> (\<forall>(df :: 't dataframe) v. column_sum df c = Inr v \<longrightarrow>
         snd (cmq_emit c (cumulative_mean_queue h) df) = Inr ())
   \<and> (\<forall>(df :: 't dataframe). map_of (columns df) c = None \<longrightarrow>
         cmq_emit c (cumulative_mean_queue h) df = (cumulative_mean_queue h, Inl KeyError))
   \<and> (\<forall>i j v. i < j \<and> j < length dfs \<and> column_sum (dfs ! i) c = Inr v
         \<longrightarrow> cmq_run c (cumulative_mean_queue h) dfs ! j = Inl ValueError)
   \<and> (\<forall>i j. i < j \<and> j < length dfs \<and> cmq_run c (cumulative_mean_queue h) dfs ! i = Inr ()
         \<longrightarrow> cmq_run c (cumulative_mean_queue h) dfs ! j = Inl ValueError)
   \<and> length (filter (\<lambda>r. r = Inr ())
        (cmq_run c (cumulative_mean_queue h) (dfs :: 't dataframe list))) \<le> 1"
proof (intro conjI allI impI)
  show "length (start :: 't pyval list) = 3"
    by (simp add: start_def)
  show "length (filter (\<lambda>r. r = Inr ()) (cmq_run c (cumulative_mean_queue h) dfs)) \<le> 1"
    by (rule cmq_run_successes)
next
  fix df :: "'t dataframe" and v n t old
  assume "column_sum df c = Inr v"
  then show "accumulator c [PNum n, PNum t, old] df =
      Inr [PNum (n + 1), PNum (t + v),
           if py_truthy old then old else py_of_ts (index_min df), py_of_ts (index_max df)]"
    by (rule accumulator_tuple)
next
  fix acc and df :: "'t dataframe" and r
  assume "accumulator c acc df = Inr r"
  then show "length r = 4" by (rule accumulator_Inr_length)
next
  fix acc :: "'t pyval list" and df :: "'t dataframe"
  assume "length acc = 4"
  then show "accumulator c acc df = Inl ValueError"
    by (simp add: accumulator_not3)
next
  fix df :: "'t dataframe" and v
  assume "column_sum df c = Inr v"
  then show "snd (cmq_emit c (cumulative_mean_queue h) df) = Inr ()"
    by (simp add: cmq_emit_start cumulative_mean_queue_def)
next
  fix df :: "'t dataframe"
  assume "map_of (columns df) c = None"
  then show "cmq_emit c (cumulative_mean_queue h) df = (cumulative_mean_queue h, Inl KeyError)"
    by (simp add: cmq_emit_def cumulative_mean_queue_def accumulator_start column_sum_def
        getitem_def)
next
  fix i j v
  assume h: "i < j \<and> j < length dfs \<and> column_sum (dfs ! i) c = Inr v"
  have "acc_state (cumulative_mean_queue h :: 't mean_queue) = start
      \<or> length (acc_state (cumulative_mean_queue h :: 't mean_queue)) = 4"
    by (simp add: cumulative_mean_queue_def)
  from cmq_run_after_column [OF this] h
  show "cmq_run c (cumulative_mean_queue h) dfs ! j = Inl ValueError"
    by blast
next
  fix i j
  assume "i < j \<and> j < length dfs \<and> cmq_run c (cumulative_mean_queue h) dfs ! i = Inr ()"
  then show "cmq_run c (cumulative_mean_queue h) dfs ! j = Inl ValueError"
    by (blast intro: cmq_run_after_success)
qed

theorem accumulator_tuple_mismatch_witness:
  "(0::nat) < 1
   \<and> column_sum \<lparr>index = [7::nat], columns = [(''fare'', [1, 3])]\<rparr> ''fare'' = Inr 4
   \<and> cmq_run ''fare'' (cumulative_mean_queue 1)
        [\<lparr>index = [7::nat], columns = [(''fare'', [1, 3])]\<rparr>,
         \<lparr>index = [8], columns = [(''fare'', [6])]\<rparr>] ! 0 = Inr ()
   \<and> cmq_run ''fare'' (cumulative_mean_queue 1)
        [\<lparr>index = [7::nat], columns = [(''fare'', [1, 3])]\<rparr>,
         \<lparr>index = [8], columns = [(''fare'', [6])]\<rparr>] ! 1 = Inl ValueError"
proof -
  let ?dfs = "[\<lparr>index = [7::nat], columns = [(''fare'', [1, 3])]\<rparr>,
               \<lparr>index = [8], columns = [(''fare'', [6])]\<rparr>]"
  have first: "cmq_run ''fare'' (cumulative_mean_queue 1) ?dfs ! 0 = Inr ()"
    by (simp add: cumulative_mean_queue_def cmq_emit_def accumulator_def start_def merge_def
        column_sum_def getitem_def Let_def)
  have col: "column_sum (?dfs ! 0) ''fare'' = Inr 4"
    by (simp add: column_sum_def getitem_def)
  have ij: "(0::nat) < 1 \<and> 1 < length ?dfs"
    by simp
  from accumulator_tuple_mismatch [of "''fare''" 1 ?dfs]
  have "\<forall>i j v. i < j \<and> j < length ?dfs \<and> column_sum (?dfs ! i) ''fare'' = Inr v
      \<longrightarrow> cmq_run ''fare'' (cumulative_mean_queue 1) ?dfs ! j = Inl ValueError"
    by blast
  with col ij have "cmq_run ''fare'' (cumulative_mean_queue 1) ?dfs ! 1 = Inl ValueError"
    by blast
  with first col show ?thesis
    by simp
qed

theorem accumulator_first_batch_counterexample:
  "cmq_run ''fare'' (cumulative_mean_queue 1)
     [DataFrame, \<lparr>index = [7::nat], columns = [(''fare'', [1, 3])]\<rparr>,
      \<lparr>index = [8], columns = [(''fare'', [6])]\<rparr>]
   = [Inl KeyError, Inr (), Inl ValueError]"
  by (simp add: cumulative_mean_queue_def cmq_emit_def accumulator_def start_def merge_def
      column_sum_def getitem_def DataFrame_def Let_def)

subsection \<open>Division by zero\<close>

lemma cm_update_no_zero_division:
  "0 \<le> count s \<Longrightarrow> snd (cm_update s x) \<noteq> Inl ZeroDivisionError"
  by (rule column_sum_cases [of x "column s"])
     (auto simp: cm_update_Inl cm_update_Inr column_sum_def getitem_def split: option.splits)

lemma cm_run_no_zero_division:
  "Inl ZeroDivisionError \<notin> set (cm_run (cm_init c) xs)"
proof
  assume "Inl ZeroDivisionError \<in> set (cm_run (cm_init c) xs)"
  then obtain i where i: "i < length xs" and "cm_run (cm_init c) xs ! i = Inl ZeroDivisionError"
    by (auto simp: in_set_conv_nth length_cm_run)
  then have "snd (cm_update (cm_final (cm_init c) (take i xs)) (xs ! i)) = Inl ZeroDivisionError"
    by (simp add: cm_run_nth)
  with cm_update_no_zero_division [OF cm_final_init_count] show False
    by blast
qed

text \<open>
  Claim C8. No update of a \<^verbatim>\<open>CumulativeMean\<close> fed from its initial state raises
  \<^verbatim>\<open>ZeroDivisionError\<close>: \<^verbatim>\<open>count\<close> is never negative, it is incremented before the
  division, and the divisor is the incremented count, at least 1. The same holds for
  the division in \<^verbatim>\<open>merge\<close> along any run of \<^verbatim>\<open>cumulative_mean_queue\<close>.
\<close>

theorem mean_division_positive_divisor:
  "Inl ZeroDivisionError \<notin> set (cm_run (cm_init c) xs)
   \<and> 0 \<le> count (cm_final (cm_init c) xs)
   \<and> (\<forall>v. column_sum x c = Inr v \<longrightarrow>
         count (fst (cm_update (cm_final (cm_init c) xs) x)) = count (cm_final (cm_init c) xs) + 1
       \<and> 1 \<le> count (fst (cm_update (cm_final (cm_init c) xs) x))
       \<and> snd (cm_update (cm_final (cm_init c) xs) x) =
           Inr (oldest (fst (cm_update (cm_final (cm_init c) xs) x)), index_max x,
                total_sum (fst (cm_update (cm_final (cm_init c) xs) x))
                  / of_int (count (fst (cm_update (cm_final (cm_init c) xs) x)))))
   \<and> Inl ZeroDivisionError \<notin> set (cmq_run c (cumulative_mean_queue h) dfs)"
proof (intro conjI allI impI)
  let ?s = "cm_final (cm_init c) xs"
  show "Inl ZeroDivisionError \<notin> set (cm_run (cm_init c) xs)"
    by (rule cm_run_no_zero_division)
  show nonneg: "0 \<le> count ?s"
    by (rule cm_final_init_count)
  show "Inl ZeroDivisionError \<notin> set (cmq_run c (cumulative_mean_queue h) dfs)"
    by (rule cmq_run_no_zero_division) (simp add: cumulative_mean_queue_def)
  fix v assume "column_sum x c = Inr v"
  then have "column_sum x (column ?s) = Inr v"
    by (simp add: cm_final_column cm_init_def)
  note upd = cm_update_Inr [OF this]
  from upd show "count (fst (cm_update ?s x)) = count ?s + 1"
    by simp
  with nonneg show "1 \<le> count (fst (cm_update ?s x))"
    by simp
  from upd nonneg show "snd (cm_update ?s x) =
      Inr (oldest (fst (cm_update ?s x)), index_max x,
           total_sum (fst (cm_update ?s x)) / of_int (count (fst (cm_update ?s x))))"
    by simp
qed

theorem mean_division_positive_divisor_witness:
  "column_sum \<lparr>index = [8::nat], columns = [(''fare'', [6])]\<rparr> ''fare'' = Inr 6
   \<and> count (fst (cm_update
        (cm_final (cm_init ''fare'') [\<lparr>index = [7::nat], columns = [(''fare'', [1, 3])]\<rparr>])
        \<lparr>index = [8::nat], columns = [(''fare'', [6])]\<rparr>)) = 2
   \<and> 1 \<le> count (fst (cm_update
        (cm_final (cm_init ''fare'') [\<lparr>index = [7::nat], columns = [(''fare'', [1, 3])]\<rparr>])
        \<lparr>index = [8::nat], columns = [(''fare'', [6])]\<rparr>))"
proof -
  let ?x = "\<lparr>index = [8::nat], columns = [(''fare'', [6])]\<rparr>"
  let ?s = "cm_final (cm_init ''fare'') [\<lparr>index = [7::nat], columns = [(''fare'', [1, 3])]\<rparr>]"
  have v: "column_sum ?x ''fare'' = Inr 6"
    by (simp add: column_sum_def getitem_def)
  have s: "count ?s = 1"
    by (simp add: cm_final_def cm_init_def cm_update_def column_sum_def getitem_def truediv_def
        Let_def)
  from mean_division_positive_divisor [of "''fare''"
      "[\<lparr>index = [7::nat], columns = [(''fare'', [1, 3])]\<rparr>]" ?x]
  have "\<forall>v. column_sum ?x ''fare'' = Inr v \<longrightarrow>
      count (fst (cm_update ?s ?x)) = count ?s + 1 \<and> 1 \<le> count (fst (cm_update ?s ?x))"
    by blast
  with v have "count (fst (cm_update ?s ?x)) = count ?s + 1 \<and> 1 \<le> count (fst (cm_update ?s ?x))"
    by blast
  with v s show ?thesis
    by simp
qed

subsection \<open>Reducing an empty batch\<close>

lemma empty_batch_column_empty:
  assumes "empty_batch df" and "map_of (columns df) c = Some vs"
  shows "vs = []"
proof -
  from assms(2) have "(c, vs) \<in> set (columns df)"
    by (rule map_of_SomeD)
  with assms(1) show ?thesis
    by (auto simp: empty_batch_def list_all_iff)
qed

lemma reduce_bin_empty: "reduce_bin agg [] = reduction_identity agg"
  by (cases agg) (simp_all add: reduce_bin_def reduction_identity_def list_min_def list_max_def)

lemma empty_batch_index: "empty_batch df \<Longrightarrow> index_min df = None \<and> index_max df = None"
  by (simp add: empty_batch_def index_min_def index_max_def list_min_def list_max_def)

text \<open>
  Claim C10, as amended. For every batch without rows that has the two key columns and
  the column of the reduction, \<^verbatim>\<open>aggregate_df\<close> does not fail: it returns absent
  minimum and maximum timestamps and a raster that holds the identity element of the
  reduction in every bin.
\<close>

theorem aggregate_df_empty_batch:
  assumes "empty_batch df"
    and "map_of (columns df) x \<noteq> None" and "map_of (columns df) y \<noteq> None"
    and "reduction_values agg df \<noteq> None"
  shows "aggregate_df (canvas_points cvs x y agg) df =
           Inr (None, None, replicate (plot_bins cvs) (reduction_identity agg))"
proof -
  from assms obtain xs ys vs where cols: "map_of (columns df) x = Some xs"
    "map_of (columns df) y = Some ys" "reduction_values agg df = Some vs"
    by auto
  with assms(1) have "xs = []"
    by (simp add: empty_batch_column_empty)
  with cols have "canvas_points cvs x y agg df =
      Some (map (\<lambda>b. reduction_identity agg) [0..<plot_bins cvs])"
    by (simp add: canvas_points_def reduce_bin_empty)
  also have "map (\<lambda>b. reduction_identity agg) [0..<plot_bins cvs] =
      replicate (plot_bins cvs) (reduction_identity agg)"
    by (simp add: map_replicate_const)
  finally show ?thesis
    using empty_batch_index [OF assms(1)] by (simp add: aggregate_df_def)
qed

theorem aggregate_df_empty_batch_witness:
  "empty_batch \<lparr>index = [] :: nat list,
                columns = [(''pickup_x'', []), (''pickup_y'', []), (''total_amount'', [])]\<rparr>
   \<and> aggregate_df (canvas_points \<lparr>plot_bins = 2, bin_of = (\<lambda>px py. if px < 0 then Some 0 else Some 1)\<rparr>
         ''pickup_x'' ''pickup_y'' (ds_sum ''total_amount''))
        \<lparr>index = [] :: nat list,
         columns = [(''pickup_x'', []), (''pickup_y'', []), (''total_amount'', [])]\<rparr>
     = Inr (None, None, [Some 0, Some 0])"
proof -
  let ?df = "\<lparr>index = [] :: nat list,
              columns = [(''pickup_x'', []), (''pickup_y'', []), (''total_amount'', [])]\<rparr>"
  have e: "empty_batch ?df"
    by (simp add: empty_batch_def)
  have x: "map_of (columns ?df) ''pickup_x'' \<noteq> None"
    and y: "map_of (columns ?df) ''pickup_y'' \<noteq> None"
    and v: "reduction_values (ds_sum ''total_amount'') ?df \<noteq> None"
    by (simp_all add: reduction_values_def)
  from aggregate_df_empty_batch [OF e x y v,
      of "\<lparr>plot_bins = 2, bin_of = (\<lambda>px py. if px < 0 then Some 0 else Some 1)\<rparr>"] e
  show ?thesis
    by (simp add: reduction_identity_def numeral_2_eq_2)
qed

theorem aggregate_df_empty_batch_counterexample:
  "empty_batch (DataFrame :: nat dataframe)
   \<and> aggregate_df (canvas_points \<lparr>plot_bins = 2, bin_of = (\<lambda>px py. if px < 0 then Some 0 else Some 1)\<rparr>
         ''pickup_x'' ''pickup_y'' (ds_max ''total_amount'')) (DataFrame :: nat dataframe)
     = Inl ReductionError"
  by (simp add: empty_batch_def DataFrame_def aggregate_df_def canvas_points_def)

end
